theory Spec2Isabelle
  imports Main "HOL-Library.Word"
begin

section \<open>The access-control firmware (ESP8266\_Access\_Control.ino)\<close>

text \<open>
  The firmware keeps one master card and a list of up to 50 authorized cards in a
  512-byte EEPROM, routes every RFID scan through \<open>loop\<close>, and serves a small set of
  web commands. The model below follows the sketch function by function. Calls that
  only print on the serial console, wait (\<open>delay\<close>) or talk to the RFID reader
  (\<open>PICC_HaltA\<close>) have no counterpart; the calls to the audio player, the relay and
  the web client are recorded, in order, in the \<open>outputs\<close> trace of the state.
\<close>

subsection \<open>Settings\<close>

type_synonym byte = "8 word"

text \<open>\<open>unsigned long\<close> is 32 bits wide on the ESP8266; \<open>-\<close> on it wraps around.\<close>

type_synonym ulong = "32 word"

definition REG_MODE_TIMEOUT_MS :: ulong where
  "REG_MODE_TIMEOUT_MS = 15000"

definition MAX_CARDS :: nat where
  "MAX_CARDS = 50"

definition EEPROM_SIZE :: nat where
  "EEPROM_SIZE = 512"

definition AUDIO_BEEP_FAIL :: int where "AUDIO_BEEP_FAIL = 1"
definition AUDIO_CUSTOMER :: int where "AUDIO_CUSTOMER = 2"
definition AUDIO_ADMIN_1 :: int where "AUDIO_ADMIN_1 = 3"
definition AUDIO_ADMIN_2 :: int where "AUDIO_ADMIN_2 = 4"
definition AUDIO_ADMIN_3 :: int where "AUDIO_ADMIN_3 = 5"
definition AUDIO_ADMIN_4 :: int where "AUDIO_ADMIN_4 = 6"
definition AUDIO_ADMIN_5 :: int where "AUDIO_ADMIN_5 = 7"
definition AUDIO_ADMIN_6 :: int where "AUDIO_ADMIN_6 = 8"
definition AUDIO_BEEP_OK :: int where "AUDIO_BEEP_OK = 9"
definition AUDIO_BOSS :: int where "AUDIO_BOSS = 10"
definition AUDIO_ATTENDANCE :: int where "AUDIO_ATTENDANCE = 11"
definition AUDIO_FAILURE :: int where "AUDIO_FAILURE = 12"
definition AUDIO_ADMIN_1_CLOCKIN :: int where "AUDIO_ADMIN_1_CLOCKIN = 13"
definition AUDIO_ADMIN_2_CLOCKIN :: int where "AUDIO_ADMIN_2_CLOCKIN = 14"
definition AUDIO_ADMIN_3_CLOCKIN :: int where "AUDIO_ADMIN_3_CLOCKIN = 15"
definition AUDIO_ADMIN_4_CLOCKIN :: int where "AUDIO_ADMIN_4_CLOCKIN = 16"
definition AUDIO_MASTER :: int where "AUDIO_MASTER = 17"
definition AUDIO_REGISTER :: int where "AUDIO_REGISTER = 18"
definition AUDIO_ADMIN_1_CLOCKOUT :: int where "AUDIO_ADMIN_1_CLOCKOUT = 19"
definition AUDIO_ADMIN_2_CLOCKOUT :: int where "AUDIO_ADMIN_2_CLOCKOUT = 20"
definition AUDIO_ADMIN_3_CLOCKOUT :: int where "AUDIO_ADMIN_3_CLOCKOUT = 21"
definition AUDIO_ADMIN_4_CLOCKOUT :: int where "AUDIO_ADMIN_4_CLOCKOUT = 22"

subsection \<open>Data\<close>

text \<open>A card identifier is \<open>byte uid[4]\<close>.\<close>

type_synonym uid = "byte \<times> byte \<times> byte \<times> byte"

text \<open>
  The EEPROM is a byte array of \<open>EEPROM_SIZE\<close> cells, addressed from 0. Every write of
  the sketch is followed by \<open>EEPROM.commit()\<close> before the function returns, so the
  buffer and the persistent copy are one array here.
\<close>

type_synonym eeprom = "nat \<Rightarrow> byte"

text \<open>
  What the sketch sends to its collaborators: a command frame to the DFPlayer
  (\<open>sendDFCommand\<close>: command, two parameters), one relay pulse (\<open>activateRelay\<close>), a
  reply to the web client (\<open>server.send\<close>: status and body; the dashboard page is
  \<open>IndexPage\<close>), and \<open>ESP.restart()\<close>.
\<close>

datatype body = Plain string | IndexPage

datatype effect =
    DFCommand byte byte byte
  | RelayPulse
  | Send nat body
  | Restart

text \<open>The globals \<open>regMode\<close> and \<open>regModeStarted\<close>, the EEPROM and the trace.\<close>

record state =
  eeprom :: eeprom
  regMode :: bool
  regModeStarted :: ulong
  outputs :: "effect list"

subsection \<open>EEPROM access\<close>

text \<open>
  \<open>EEPROM.read\<close> and \<open>EEPROM.write\<close> of the ESP8266 core check the address against
  the size given to \<open>EEPROM.begin\<close>: a read outside it yields 0 and a write outside it
  does nothing.
\<close>

definition EEPROM_read :: "eeprom \<Rightarrow> nat \<Rightarrow> byte" where
  "EEPROM_read e a = (if a < EEPROM_SIZE then e a else 0)"

definition EEPROM_write :: "eeprom \<Rightarrow> nat \<Rightarrow> byte \<Rightarrow> eeprom" where
  "EEPROM_write e a v = (if a < EEPROM_SIZE then e(a := v) else e)"

text \<open>
  The loop \<open>for (int b = 0; b < 4; b++) stored[b] = EEPROM.read(addr + b)\<close>, which the
  sketch writes out in \<open>readMasterUID\<close>, \<open>isAuthorized\<close>, \<open>removeCardAtIndex\<close> and
  \<open>toggleAuthorizedCard\<close>, and its counterpart
  \<open>for (int b = 0; b < 4; b++) EEPROM.write(addr + b, in[b])\<close>.
\<close>

definition readUIDAt :: "eeprom \<Rightarrow> nat \<Rightarrow> uid" where
  "readUIDAt e addr =
     (EEPROM_read e addr, EEPROM_read e (addr + 1), EEPROM_read e (addr + 2),
      EEPROM_read e (addr + 3))"

fun writeUIDAt :: "eeprom \<Rightarrow> nat \<Rightarrow> uid \<Rightarrow> eeprom" where
  "writeUIDAt e addr (u0, u1, u2, u3) =
     EEPROM_write (EEPROM_write (EEPROM_write (EEPROM_write e addr u0) (addr + 1) u1)
       (addr + 2) u2) (addr + 3) u3"

declare writeUIDAt.simps [simp del]

subsection \<open>Identifiers\<close>

text \<open>\<open>compareUID\<close>: the first differing byte returns false.\<close>

fun compareUID :: "uid \<Rightarrow> uid \<Rightarrow> bool" where
  "compareUID (a0, a1, a2, a3) (b0, b1, b2, b3) =
     (if a0 \<noteq> b0 then False
      else if a1 \<noteq> b1 then False
      else if a2 \<noteq> b2 then False
      else if a3 \<noteq> b3 then False
      else True)"

text \<open>\<open>isUIDEmpty\<close>: the first byte that is neither 0xFF nor 0x00 returns false.\<close>

fun isUIDEmpty :: "uid \<Rightarrow> bool" where
  "isUIDEmpty (u0, u1, u2, u3) =
     (if u0 \<noteq> 0xFF \<and> u0 \<noteq> 0x00 then False
      else if u1 \<noteq> 0xFF \<and> u1 \<noteq> 0x00 then False
      else if u2 \<noteq> 0xFF \<and> u2 \<noteq> 0x00 then False
      else if u3 \<noteq> 0xFF \<and> u3 \<noteq> 0x00 then False
      else True)"

subsection \<open>The card store\<close>

definition readMasterUID :: "eeprom \<Rightarrow> uid" where
  "readMasterUID e = readUIDAt e 0"

definition writeMasterUID :: "eeprom \<Rightarrow> uid \<Rightarrow> eeprom" where
  "writeMasterUID e u = writeUIDAt e 0 u"

definition readCount :: "eeprom \<Rightarrow> byte" where
  "readCount e = EEPROM_read e 4"

definition writeCount :: "eeprom \<Rightarrow> byte \<Rightarrow> eeprom" where
  "writeCount e c = EEPROM_write e 4 c"

definition cardAddr :: "nat \<Rightarrow> nat" where
  "cardAddr index = 5 + index * 4"

text \<open>
  \<open>isAuthorized\<close>: \<open>for (byte i = 0; i < cnt; i++)\<close>, returning true at the first stored
  identifier equal to \<open>uid\<close>. The counter stays below \<open>cnt \<le> 255\<close>, so it never wraps.
\<close>

function isAuthorized_from :: "eeprom \<Rightarrow> uid \<Rightarrow> nat \<Rightarrow> nat \<Rightarrow> bool" where
  "isAuthorized_from e u cnt i =
     (if i < cnt then
        (if compareUID u (readUIDAt e (cardAddr i)) then True
         else isAuthorized_from e u cnt (i + 1))
      else False)"
  by pat_completeness auto
termination
  by (relation "measure (\<lambda>(e, u, cnt, i). cnt - i)") auto

declare isAuthorized_from.simps [simp del]

definition isAuthorized :: "eeprom \<Rightarrow> uid \<Rightarrow> bool" where
  "isAuthorized e u = isAuthorized_from e u (unat (readCount e)) 0"

text \<open>\<open>playAudio\<close> sends command 0x03 with the file number in the low parameter byte.\<close>

definition sendDFCommand :: "state \<Rightarrow> byte \<Rightarrow> byte \<Rightarrow> byte \<Rightarrow> state" where
  "sendDFCommand s command param1 param2 =
     s\<lparr>outputs := outputs s @ [DFCommand command param1 param2]\<rparr>"

definition playAudio :: "state \<Rightarrow> int \<Rightarrow> state" where
  "playAudio s fileNumber = sendDFCommand s 0x03 0 (word_of_int fileNumber)"

definition activateRelay :: "state \<Rightarrow> state" where
  "activateRelay s = s\<lparr>outputs := outputs s @ [RelayPulse]\<rparr>"

text \<open>
  \<open>addCard\<close>: returns at once when \<open>cnt >= MAX_CARDS\<close>; otherwise writes the identifier
  into slot \<open>cnt\<close>, stores \<open>cnt + 1\<close> (converted back to a byte) and plays the
  registration cue.
\<close>

definition addCard :: "state \<Rightarrow> uid \<Rightarrow> state" where
  "addCard s u =
     (let cnt = readCount (eeprom s) in
      if unat cnt \<ge> MAX_CARDS then s
      else playAudio
             (s\<lparr>eeprom := writeCount (writeUIDAt (eeprom s) (cardAddr (unat cnt)) u) (cnt + 1)\<rparr>)
             AUDIO_REGISTER)"

text \<open>
  \<open>removeCardAtIndex\<close>: the loop \<open>for (int i = idx; i < cnt - 1; i++)\<close> copies slot
  \<open>i + 1\<close> into slot \<open>i\<close>. It is only entered after \<open>idx >= cnt\<close> has been excluded,
  so \<open>cnt - 1\<close> is not negative.
\<close>

function removeCard_shift :: "eeprom \<Rightarrow> nat \<Rightarrow> nat \<Rightarrow> eeprom" where
  "removeCard_shift e cnt i =
     (if i < cnt - 1 then
        removeCard_shift (writeUIDAt e (cardAddr i) (readUIDAt e (cardAddr (i + 1)))) cnt (i + 1)
      else e)"
  by pat_completeness auto
termination
  by (relation "measure (\<lambda>(e, cnt, i). cnt - i)") auto

declare removeCard_shift.simps [simp del]

definition removeCardAtIndex :: "eeprom \<Rightarrow> byte \<Rightarrow> eeprom" where
  "removeCardAtIndex e idx =
     (let cnt = readCount e in
      if idx \<ge> cnt then e
      else
        let e1 = removeCard_shift e (unat cnt) (unat idx);
            e2 = writeUIDAt e1 (cardAddr (unat cnt - 1)) (0xFF, 0xFF, 0xFF, 0xFF)
        in writeCount e2 (cnt - 1))"

text \<open>
  \<open>toggleAuthorizedCard\<close>: the first slot holding \<open>uid\<close> is removed (with the failure
  beep); when no slot holds it, the card is added.
\<close>

function toggle_from :: "state \<Rightarrow> uid \<Rightarrow> nat \<Rightarrow> nat \<Rightarrow> state" where
  "toggle_from s u cnt i =
     (if i < cnt then
        (if compareUID u (readUIDAt (eeprom s) (cardAddr i)) then
           playAudio (s\<lparr>eeprom := removeCardAtIndex (eeprom s) (of_nat i)\<rparr>) AUDIO_BEEP_FAIL
         else toggle_from s u cnt (i + 1))
      else addCard s u)"
  by pat_completeness auto
termination
  by (relation "measure (\<lambda>(s, u, cnt, i). cnt - i)") auto

declare toggle_from.simps [simp del]

definition toggleAuthorizedCard :: "state \<Rightarrow> uid \<Rightarrow> state" where
  "toggleAuthorizedCard s u = toggle_from s u (unat (readCount (eeprom s))) 0"

subsection \<open>Startup\<close>

text \<open>
  \<open>initEEPROM\<close>: when the count byte exceeds \<open>MAX_CARDS\<close>, every cell is written 0xFF
  and the count byte is then written 0.
\<close>

function initEEPROM_fill :: "eeprom \<Rightarrow> nat \<Rightarrow> eeprom" where
  "initEEPROM_fill e i =
     (if i < EEPROM_SIZE then initEEPROM_fill (EEPROM_write e i 0xFF) (i + 1) else e)"
  by pat_completeness auto
termination
  by (relation "measure (\<lambda>(e, i). EEPROM_SIZE - i)") auto

declare initEEPROM_fill.simps [simp del]

definition initEEPROM :: "eeprom \<Rightarrow> eeprom" where
  "initEEPROM e =
     (let count = EEPROM_read e 4 in
      if unat count > MAX_CARDS then EEPROM_write (initEEPROM_fill e 0) 4 0
      else e)"

text \<open>
  The state in which \<open>setup()\<close> leaves the device: the globals at their initial values,
  the EEPROM after \<open>initEEPROM\<close>, and the volume command of \<open>initDFPlayer\<close> sent.
\<close>

definition initDFPlayer :: "state \<Rightarrow> state" where
  "initDFPlayer s = sendDFCommand s 0x06 0 30"

definition setup_device :: "eeprom \<Rightarrow> state" where
  "setup_device e =
     initDFPlayer \<lparr>eeprom = initEEPROM e, regMode = False, regModeStarted = 0, outputs = []\<rparr>"

subsection \<open>The scan router\<close>

definition handleMasterScan :: "state \<Rightarrow> ulong \<Rightarrow> state" where
  "handleMasterScan s millis =
     (if \<not> regMode s then playAudio (s\<lparr>regMode := True, regModeStarted := millis\<rparr>) AUDIO_MASTER
      else playAudio (s\<lparr>regMode := False\<rparr>) AUDIO_BEEP_OK)"

text \<open>
  \<open>loop\<close>, from the card poll on. \<open>scan\<close> is what the reader delivers in this pass
  (\<open>None\<close>: no new card, or its serial could not be read, and the pass returns), and
  \<open>millis\<close> is the value of \<open>millis()\<close> in this pass, which is read at most once:
  in \<open>handleMasterScan\<close> or in the timeout test at the end. The call
  \<open>server.handleClient()\<close> at the top of the pass is \<open>handleClient\<close> below.
\<close>

definition loop :: "state \<Rightarrow> uid option \<Rightarrow> ulong \<Rightarrow> state" where
  "loop s scan millis =
     (case scan of
        None \<Rightarrow> s
      | Some u \<Rightarrow>
          let master = readMasterUID (eeprom s) in
          if isUIDEmpty master then
            playAudio (s\<lparr>eeprom := writeMasterUID (eeprom s) u\<rparr>) AUDIO_MASTER
          else if compareUID u master then handleMasterScan s millis
          else
            let s1 = (if regMode s then toggleAuthorizedCard s u
                      else if isAuthorized (eeprom s) u then
                        activateRelay (playAudio s AUDIO_BEEP_OK)
                      else playAudio s AUDIO_BEEP_FAIL)
            in if regMode s1 \<and> millis - regModeStarted s1 > REG_MODE_TIMEOUT_MS
               then s1\<lparr>regMode := False\<rparr>
               else s1)"

subsection \<open>Web commands\<close>

datatype handler = Root | Command string int bool | Reboot

text \<open>The routes registered by \<open>setup()\<close> with \<open>server.on\<close>, in the order of the sketch.\<close>

definition routes :: "(string \<times> handler) list" where
  "routes =
    [(''/'', Root),
     (''/customer'', Command ''Customer'' AUDIO_CUSTOMER False),
     (''/admin1'', Command ''Admin 1'' AUDIO_ADMIN_1 True),
     (''/admin2'', Command ''Admin 2'' AUDIO_ADMIN_2 True),
     (''/admin3'', Command ''Admin 3'' AUDIO_ADMIN_3 True),
     (''/admin4'', Command ''Admin 4'' AUDIO_ADMIN_4 True),
     (''/admin5'', Command ''Admin 5'' AUDIO_ADMIN_5 True),
     (''/admin6'', Command ''Admin 6'' AUDIO_ADMIN_6 True),
     (''/boss'', Command ''Boss'' AUDIO_BOSS True),
     (''/attendance'', Command ''Attendance'' AUDIO_ATTENDANCE False),
     (''/admin1_clockin'', Command ''Admin 1 Clock In'' AUDIO_ADMIN_1_CLOCKIN False),
     (''/admin2_clockin'', Command ''Admin 2 Clock In'' AUDIO_ADMIN_2_CLOCKIN False),
     (''/admin3_clockin'', Command ''Admin 3 Clock In'' AUDIO_ADMIN_3_CLOCKIN False),
     (''/admin4_clockin'', Command ''Admin 4 Clock In'' AUDIO_ADMIN_4_CLOCKIN False),
     (''/admin1_clockout'', Command ''Admin 1 Clock Out'' AUDIO_ADMIN_1_CLOCKOUT False),
     (''/admin2_clockout'', Command ''Admin 2 Clock Out'' AUDIO_ADMIN_2_CLOCKOUT False),
     (''/admin3_clockout'', Command ''Admin 3 Clock Out'' AUDIO_ADMIN_3_CLOCKOUT False),
     (''/admin4_clockout'', Command ''Admin 4 Clock Out'' AUDIO_ADMIN_4_CLOCKOUT False),
     (''/admin1_relay'', Command ''Admin 1 Relay Only'' 0 True),
     (''/admin2_relay'', Command ''Admin 2 Relay Only'' 0 True),
     (''/admin3_relay'', Command ''Admin 3 Relay Only'' 0 True),
     (''/admin4_relay'', Command ''Admin 4 Relay Only'' 0 True),
     (''/admin5_relay'', Command ''Admin 5 Relay Only'' 0 True),
     (''/admin6_relay'', Command ''Admin 6 Relay Only'' 0 True),
     (''/boss_relay'', Command ''Boss Relay Only'' 0 True),
     (''/failure'', Command ''Failure'' AUDIO_FAILURE False),
     (''/beep_ok'', Command ''Beep OK'' AUDIO_BEEP_OK False),
     (''/beep_fail'', Command ''Beep Fail'' AUDIO_BEEP_FAIL False),
     (''/master'', Command ''Master'' AUDIO_MASTER False),
     (''/register'', Command ''Register'' AUDIO_REGISTER False),
     (''/reboot'', Reboot)]"

definition send :: "state \<Rightarrow> nat \<Rightarrow> body \<Rightarrow> state" where
  "send s code b = s\<lparr>outputs := outputs s @ [Send code b]\<rparr>"

definition handleRoot :: "state \<Rightarrow> state" where
  "handleRoot s = send s 200 IndexPage"

definition handleCommand :: "state \<Rightarrow> string \<Rightarrow> int \<Rightarrow> bool \<Rightarrow> state" where
  "handleCommand s name audioID triggerRelay =
     (let s1 = playAudio s audioID;
          s2 = (if triggerRelay then activateRelay s1 else s1)
      in send s2 200 (Plain ''OK''))"

definition handleReboot :: "state \<Rightarrow> state" where
  "handleReboot s =
     (let s1 = send s 200 (Plain ''Rebooting...'')
      in s1\<lparr>outputs := outputs s1 @ [Restart]\<rparr>)"

definition handleNotFound :: "state \<Rightarrow> state" where
  "handleNotFound s = send s 404 (Plain ''Not Found'')"

text \<open>
  \<open>server.handleClient()\<close> for a request with path \<open>uri\<close>: the first route registered
  for exactly this path runs; without one, the \<open>onNotFound\<close> handler runs.
\<close>

definition handleClient :: "state \<Rightarrow> string \<Rightarrow> state" where
  "handleClient s uri =
     (case map_of routes uri of
        None \<Rightarrow> handleNotFound s
      | Some Root \<Rightarrow> handleRoot s
      | Some (Command name audioID triggerRelay) \<Rightarrow> handleCommand s name audioID triggerRelay
      | Some Reboot \<Rightarrow> handleReboot s)"

subsection \<open>The device over time\<close>

text \<open>
  What happens to the device: a pass of \<open>loop\<close> with what the reader delivers and the
  clock value, a web request, and a restart (power cycle or \<open>ESP.restart()\<close>), after
  which \<open>setup()\<close> runs on the EEPROM as it was left.
\<close>

datatype event = Poll "uid option" ulong | Request string | Boot

fun step :: "state \<Rightarrow> event \<Rightarrow> state" where
  "step s (Poll scan millis) = loop s scan millis"
| "step s (Request uri) = handleClient s uri"
| "step s Boot = setup_device (eeprom s)"

fun run :: "state \<Rightarrow> event list \<Rightarrow> state" where
  "run s [] = s"
| "run s (ev # evs) = run (step s ev) evs"

subsection \<open>The store read as a list\<close>

text \<open>
  Slot \<open>i\<close> of the card table, and the authorized list: the slots below the stored
  count, in order. These are the values \<open>isAuthorized\<close> compares a scanned card with.
\<close>

definition storedCard :: "eeprom \<Rightarrow> nat \<Rightarrow> uid" where
  "storedCard e i = readUIDAt e (cardAddr i)"

definition authorized :: "eeprom \<Rightarrow> uid list" where
  "authorized e = map (storedCard e) [0..<unat (readCount e)]"

text \<open>
  The three conditions of the data model: no identifier is stored twice, at most
  \<open>MAX_CARDS\<close> identifiers are stored, and the master card is not authorized.
\<close>

definition store_ok :: "eeprom \<Rightarrow> bool" where
  "store_ok e \<longleftrightarrow>
     distinct (authorized e) \<and> unat (readCount e) \<le> MAX_CARDS \<and>
     \<not> isAuthorized e (readMasterUID e)"

text \<open>The empty store: no master card and no authorized card.\<close>

definition store_empty :: "eeprom \<Rightarrow> bool" where
  "store_empty e \<longleftrightarrow> isUIDEmpty (readMasterUID e) \<and> readCount e = 0"

subsection \<open>Command names\<close>

text \<open>
  The relay-only commands and the whole command vocabulary, as the interface
  description lists them; the request path of a command is \<open>/\<close> followed by its name.
  \<open>audio_cues\<close> are the file indices the sketch defines (\<open>AUDIO_BEEP_FAIL\<close> to
  \<open>AUDIO_ADMIN_4_CLOCKOUT\<close>).
\<close>

definition relay_only_commands :: "string list" where
  "relay_only_commands =
    [''admin1_relay'', ''admin2_relay'', ''admin3_relay'', ''admin4_relay'',
     ''admin5_relay'', ''admin6_relay'', ''boss_relay'']"

definition command_vocabulary :: "string list" where
  "command_vocabulary =
    [''customer'', ''admin1'', ''admin2'', ''admin3'', ''admin4'', ''admin5'', ''admin6'',
     ''boss'', ''attendance'',
     ''admin1_clockin'', ''admin2_clockin'', ''admin3_clockin'', ''admin4_clockin'',
     ''admin1_clockout'', ''admin2_clockout'', ''admin3_clockout'', ''admin4_clockout'']
    @ relay_only_commands @
    [''failure'', ''beep_ok'', ''beep_fail'', ''master'', ''register'']"

definition audio_cues :: "int list" where
  "audio_cues =
    [AUDIO_BEEP_FAIL, AUDIO_CUSTOMER, AUDIO_ADMIN_1, AUDIO_ADMIN_2, AUDIO_ADMIN_3,
     AUDIO_ADMIN_4, AUDIO_ADMIN_5, AUDIO_ADMIN_6, AUDIO_BEEP_OK, AUDIO_BOSS,
     AUDIO_ATTENDANCE, AUDIO_FAILURE, AUDIO_ADMIN_1_CLOCKIN, AUDIO_ADMIN_2_CLOCKIN,
     AUDIO_ADMIN_3_CLOCKIN, AUDIO_ADMIN_4_CLOCKIN, AUDIO_MASTER, AUDIO_REGISTER,
     AUDIO_ADMIN_1_CLOCKOUT, AUDIO_ADMIN_2_CLOCKOUT, AUDIO_ADMIN_3_CLOCKOUT,
     AUDIO_ADMIN_4_CLOCKOUT]"

subsection \<open>Example states\<close>

text \<open>
  An erased EEPROM; a store with master card AA:BB:CC:DD and the two authorized cards
  11:22:33:44 and 55:66:77:88; a store whose count byte is 50; and an idle device on
  the example store.
\<close>

definition erased :: eeprom where
  "erased = (\<lambda>a. 0xFF)"

definition example_store :: eeprom where
  "example_store =
     erased(0 := 0xAA, 1 := 0xBB, 2 := 0xCC, 3 := 0xDD, 4 := 2,
            5 := 0x11, 6 := 0x22, 7 := 0x33, 8 := 0x44,
            9 := 0x55, 10 := 0x66, 11 := 0x77, 12 := 0x88)"

definition full_store :: eeprom where
  "full_store = erased(0 := 0xAA, 1 := 0xBB, 2 := 0xCC, 3 := 0xDD, 4 := 50)"

definition example_state :: state where
  "example_state = \<lparr>eeprom = example_store, regMode = False, regModeStarted = 0, outputs = []\<rparr>"

text \<open>The example device after a scan of its master card at 1000 ms.\<close>

definition armed_state :: state where
  "armed_state = loop example_state (Some (0xAA, 0xBB, 0xCC, 0xDD)) 1000"

section \<open>Properties\<close>

subsection \<open>Reading and writing the EEPROM\<close>


lemma compareUID_eq: "compareUID a b \<longleftrightarrow> a = b"
  by (cases a; cases b) auto

lemma EEPROM_read_write:
  "EEPROM_read (EEPROM_write e a v) b = (if a = b \<and> a < EEPROM_SIZE then v else EEPROM_read e b)"
  by (simp add: EEPROM_read_def EEPROM_write_def)

lemma EEPROM_read_writeUIDAt_other:
  "a < addr \<or> addr + 3 < a \<Longrightarrow> EEPROM_read (writeUIDAt e addr u) a = EEPROM_read e a"
  by (cases u) (auto simp: EEPROM_read_write writeUIDAt.simps)

lemma readUIDAt_writeUIDAt_same:
  "addr + 3 < EEPROM_SIZE \<Longrightarrow> readUIDAt (writeUIDAt e addr u) addr = u"
  by (cases u) (simp add: readUIDAt_def EEPROM_read_write writeUIDAt.simps)

lemma readUIDAt_writeUIDAt_other:
  "a + 3 < addr \<or> addr + 3 < a \<Longrightarrow> readUIDAt (writeUIDAt e addr u) a = readUIDAt e a"
  by (auto simp: readUIDAt_def EEPROM_read_writeUIDAt_other)

lemma storedCard_writeUIDAt:
  "cardAddr i + 3 < EEPROM_SIZE \<Longrightarrow>
   storedCard (writeUIDAt e (cardAddr i) u) j = (if j = i then u else storedCard e j)"
  by (auto simp: storedCard_def readUIDAt_writeUIDAt_same cardAddr_def intro!: readUIDAt_writeUIDAt_other)

lemma storedCard_writeCount: "storedCard (writeCount e c) j = storedCard e j"
  by (simp add: storedCard_def readUIDAt_def writeCount_def EEPROM_read_write cardAddr_def)

lemma readCount_writeUIDAt_card: "readCount (writeUIDAt e (cardAddr i) u) = readCount e"
  by (simp add: readCount_def cardAddr_def EEPROM_read_writeUIDAt_other)

lemma readCount_writeCount: "readCount (writeCount e c) = c"
  by (simp add: readCount_def writeCount_def EEPROM_read_write EEPROM_SIZE_def)

lemma readMasterUID_writeUIDAt_card: "readMasterUID (writeUIDAt e (cardAddr i) u) = readMasterUID e"
  by (simp add: readMasterUID_def cardAddr_def readUIDAt_def EEPROM_read_writeUIDAt_other)

lemma readMasterUID_writeCount: "readMasterUID (writeCount e c) = readMasterUID e"
  by (simp add: readMasterUID_def readUIDAt_def writeCount_def EEPROM_read_write)



lemma removeCard_shift_stored:
  "cardAddr (cnt - 1) + 3 < EEPROM_SIZE \<Longrightarrow>
   storedCard (removeCard_shift e cnt i) j =
     (if i \<le> j \<and> j < cnt - 1 then storedCard e (j + 1) else storedCard e j)"
proof (induction e cnt i rule: removeCard_shift.induct)
  case (1 e cnt i)
  show ?case
  proof (cases "i < cnt - 1")
    case True
    then have rng: "cardAddr i + 3 < EEPROM_SIZE"
      using "1.prems" by (simp add: cardAddr_def)
    have "storedCard (removeCard_shift e cnt i) j =
          storedCard (removeCard_shift (writeUIDAt e (cardAddr i) (readUIDAt e (cardAddr (i + 1)))) cnt (i + 1)) j"
      using True by (subst removeCard_shift.simps) simp
    also have "\<dots> = (if i + 1 \<le> j \<and> j < cnt - 1
          then storedCard (writeUIDAt e (cardAddr i) (readUIDAt e (cardAddr (i + 1)))) (j + 1)
          else storedCard (writeUIDAt e (cardAddr i) (readUIDAt e (cardAddr (i + 1)))) j)"
      using "1.IH" [OF True "1.prems"] .
    also have "\<dots> = (if i \<le> j \<and> j < cnt - 1 then storedCard e (j + 1) else storedCard e j)"
      using True by (auto simp: storedCard_writeUIDAt [OF rng] storedCard_def [symmetric])
    finally show ?thesis .
  next
    case False
    then show ?thesis by (subst removeCard_shift.simps) auto
  qed
qed

lemma EEPROM_read_removeCard_shift_low:
  "a < 5 \<Longrightarrow> EEPROM_read (removeCard_shift e cnt i) a = EEPROM_read e a"
proof (induction e cnt i rule: removeCard_shift.induct)
  case (1 e cnt i)
  show ?case
  proof (cases "i < cnt - 1")
    case True
    then show ?thesis
      using "1.IH" [OF True "1.prems"] "1.prems"
      by (subst removeCard_shift.simps) (simp add: EEPROM_read_writeUIDAt_other cardAddr_def)
  next
    case False
    then show ?thesis by (subst removeCard_shift.simps) simp
  qed
qed

lemma readCount_removeCard_shift: "readCount (removeCard_shift e cnt i) = readCount e"
  by (simp add: readCount_def EEPROM_read_removeCard_shift_low)

lemma readMasterUID_removeCard_shift: "readMasterUID (removeCard_shift e cnt i) = readMasterUID e"
  by (simp add: readMasterUID_def readUIDAt_def EEPROM_read_removeCard_shift_low)

lemma cardAddr_in_range: "i < MAX_CARDS \<Longrightarrow> cardAddr i + 3 < EEPROM_SIZE"
  by (simp add: cardAddr_def MAX_CARDS_def EEPROM_SIZE_def)

lemma word_less_unat_pos: "(idx::byte) < cnt \<Longrightarrow> unat idx < unat cnt"
  by (simp add: word_less_nat_alt)

lemma unat_byte_minus_one: "(idx::byte) < cnt \<Longrightarrow> unat (cnt - 1) = unat cnt - 1"
  by (metis not_less_iff_gr_or_eq unat_minus_one word_less_unat_pos unat_0 not_less0)

lemma removeCardAtIndex_below:
  "idx < readCount e \<Longrightarrow>
   removeCardAtIndex e idx =
     writeCount
       (writeUIDAt (removeCard_shift e (unat (readCount e)) (unat idx))
          (cardAddr (unat (readCount e) - 1)) (0xFF, 0xFF, 0xFF, 0xFF))
       (readCount e - 1)"
  by (simp add: removeCardAtIndex_def Let_def not_le [symmetric])

lemma readCount_removeCardAtIndex:
  "idx < readCount e \<Longrightarrow> readCount (removeCardAtIndex e idx) = readCount e - 1"
  by (simp add: removeCardAtIndex_below readCount_writeCount)

lemma readMasterUID_removeCardAtIndex:
  "readMasterUID (removeCardAtIndex e idx) = readMasterUID e"
  by (simp add: removeCardAtIndex_def Let_def readMasterUID_writeCount
      readMasterUID_writeUIDAt_card readMasterUID_removeCard_shift)

lemma storedCard_removeCardAtIndex:
  assumes "idx < readCount e" and "unat (readCount e) \<le> MAX_CARDS"
  shows "storedCard (removeCardAtIndex e idx) j =
     (if j < unat idx then storedCard e j
      else if j < unat (readCount e) - 1 then storedCard e (j + 1)
      else if j = unat (readCount e) - 1 then (0xFF, 0xFF, 0xFF, 0xFF)
      else storedCard e j)"
proof -
  let ?n = "unat (readCount e)"
  have pos: "unat idx < ?n" using assms(1) by (rule word_less_unat_pos)
  then have rng: "cardAddr (?n - 1) + 3 < EEPROM_SIZE"
    using assms(2) by (intro cardAddr_in_range) simp
  have "storedCard (removeCardAtIndex e idx) j =
        storedCard (writeUIDAt (removeCard_shift e ?n (unat idx)) (cardAddr (?n - 1)) (0xFF, 0xFF, 0xFF, 0xFF)) j"
    using assms(1) by (simp add: removeCardAtIndex_below storedCard_writeCount)
  also have "\<dots> = (if j = ?n - 1 then (0xFF, 0xFF, 0xFF, 0xFF)
                    else storedCard (removeCard_shift e ?n (unat idx)) j)"
    by (rule storedCard_writeUIDAt [OF rng])
  also have "\<dots> = (if j < unat idx then storedCard e j
      else if j < ?n - 1 then storedCard e (j + 1)
      else if j = ?n - 1 then (0xFF, 0xFF, 0xFF, 0xFF)
      else storedCard e j)"
    using pos by (auto simp: removeCard_shift_stored [OF rng])
  finally show ?thesis .
qed

lemma length_authorized: "length (authorized e) = unat (readCount e)"
  by (simp add: authorized_def)

lemma nth_authorized: "i < unat (readCount e) \<Longrightarrow> authorized e ! i = storedCard e i"
  by (simp add: authorized_def)

lemma authorized_removeCardAtIndex:
  assumes "idx < readCount e" and "unat (readCount e) \<le> MAX_CARDS"
  shows "authorized (removeCardAtIndex e idx) =
         take (unat idx) (authorized e) @ drop (unat idx + 1) (authorized e)"
proof (rule nth_equalityI)
  have pos: "unat idx < unat (readCount e)" using assms(1) by (rule word_less_unat_pos)
  have cnt: "unat (readCount (removeCardAtIndex e idx)) = unat (readCount e) - 1"
    using assms(1) by (simp add: readCount_removeCardAtIndex unat_byte_minus_one)
  show len: "length (authorized (removeCardAtIndex e idx)) =
        length (take (unat idx) (authorized e) @ drop (unat idx + 1) (authorized e))"
    using pos by (simp add: length_authorized cnt)
  fix j assume "j < length (authorized (removeCardAtIndex e idx))"
  then have j: "j < unat (readCount e) - 1" by (simp add: length_authorized cnt)
  then show "authorized (removeCardAtIndex e idx) ! j =
        (take (unat idx) (authorized e) @ drop (unat idx + 1) (authorized e)) ! j"
    using pos
    by (simp add: nth_authorized cnt storedCard_removeCardAtIndex [OF assms] nth_append
        length_authorized min_def add.commute)
qed



lemma isAuthorized_from_iff:
  "isAuthorized_from e u cnt i \<longleftrightarrow> (\<exists>j. i \<le> j \<and> j < cnt \<and> storedCard e j = u)"
proof (induction e u cnt i rule: isAuthorized_from.induct)
  case (1 e u cnt i)
  show ?case
  proof (cases "i < cnt")
    case False
    then show ?thesis by (subst isAuthorized_from.simps) auto
  next
    case True
    show ?thesis
    proof (cases "storedCard e i = u")
      case hit: True
      then show ?thesis
        using True by (subst isAuthorized_from.simps) (auto simp: compareUID_eq storedCard_def)
    next
      case miss: False
      then have c: "\<not> compareUID u (readUIDAt e (cardAddr i))"
        by (auto simp: compareUID_eq storedCard_def)
      have "isAuthorized_from e u cnt i = isAuthorized_from e u cnt (i + 1)"
        using True c by (subst isAuthorized_from.simps) simp
      also have "\<dots> \<longleftrightarrow> (\<exists>j. i + 1 \<le> j \<and> j < cnt \<and> storedCard e j = u)"
        using "1.IH" [OF True c] .
      also have "\<dots> \<longleftrightarrow> (\<exists>j. i \<le> j \<and> j < cnt \<and> storedCard e j = u)"
        using miss by (metis Suc_eq_plus1 Suc_leD Suc_leI le_neq_implies_less)
      finally show ?thesis .
    qed
  qed
qed

lemma isAuthorized_iff: "isAuthorized e u \<longleftrightarrow> u \<in> set (authorized e)"
  by (auto simp: isAuthorized_def isAuthorized_from_iff authorized_def)

lemma toggle_from_absent:
  "(\<forall>j. i \<le> j \<and> j < cnt \<longrightarrow> storedCard (eeprom s) j \<noteq> u) \<Longrightarrow>
   toggle_from s u cnt i = addCard s u"
proof (induction s u cnt i rule: toggle_from.induct)
  case (1 s u cnt i)
  show ?case
  proof (cases "i < cnt")
    case False
    then show ?thesis by (subst toggle_from.simps) simp
  next
    case True
    then have c: "\<not> compareUID u (readUIDAt (eeprom s) (cardAddr i))"
      using "1.prems" by (auto simp: compareUID_eq storedCard_def)
    have "toggle_from s u cnt i = toggle_from s u cnt (i + 1)"
      using True c by (subst toggle_from.simps) simp
    also have "\<dots> = addCard s u"
      using "1.prems" by (intro "1.IH" [OF True c]) auto
    finally show ?thesis .
  qed
qed

lemma toggle_from_found:
  "i \<le> k \<Longrightarrow> k < cnt \<Longrightarrow> storedCard (eeprom s) k = u \<Longrightarrow>
   (\<forall>j. i \<le> j \<and> j < k \<longrightarrow> storedCard (eeprom s) j \<noteq> u) \<Longrightarrow>
   toggle_from s u cnt i =
     playAudio (s\<lparr>eeprom := removeCardAtIndex (eeprom s) (of_nat k)\<rparr>) AUDIO_BEEP_FAIL"
proof (induction s u cnt i rule: toggle_from.induct)
  case (1 s u cnt i)
  have lt: "i < cnt" using "1.prems" by simp
  show ?case
  proof (cases "i = k")
    case True
    then show ?thesis
      using lt "1.prems"(3)
      by (subst toggle_from.simps) (simp add: compareUID_eq storedCard_def)
  next
    case False
    then have ik: "i < k" using "1.prems"(1) by simp
    then have c: "\<not> compareUID u (readUIDAt (eeprom s) (cardAddr i))"
      using "1.prems"(4) by (auto simp: compareUID_eq storedCard_def)
    have "toggle_from s u cnt i = toggle_from s u cnt (i + 1)"
      using lt c by (subst toggle_from.simps) simp
    also have "\<dots> = playAudio (s\<lparr>eeprom := removeCardAtIndex (eeprom s) (of_nat k)\<rparr>) AUDIO_BEEP_FAIL"
      using "1.prems" ik by (intro "1.IH" [OF lt c]) auto
    finally show ?thesis .
  qed
qed

lemma eeprom_playAudio: "eeprom (playAudio s n) = eeprom s"
  by (simp add: playAudio_def sendDFCommand_def)

lemma regMode_playAudio: "regMode (playAudio s n) = regMode s"
  by (simp add: playAudio_def sendDFCommand_def)

lemma regModeStarted_playAudio: "regModeStarted (playAudio s n) = regModeStarted s"
  by (simp add: playAudio_def sendDFCommand_def)

lemma addCard_full: "MAX_CARDS \<le> unat (readCount (eeprom s)) \<Longrightarrow> addCard s u = s"
  by (simp add: addCard_def Let_def)

lemma eeprom_addCard_free:
  "unat (readCount (eeprom s)) < MAX_CARDS \<Longrightarrow>
   eeprom (addCard s u) =
     writeCount (writeUIDAt (eeprom s) (cardAddr (unat (readCount (eeprom s)))) u)
       (readCount (eeprom s) + 1)"
  by (simp add: addCard_def Let_def eeprom_playAudio)

lemma unat_byte_plus_one: "unat (c::byte) < MAX_CARDS \<Longrightarrow> unat (c + 1) = unat c + 1"
  by (simp add: MAX_CARDS_def unat_word_ariths)

lemma authorized_addCard_free:
  assumes "unat (readCount (eeprom s)) < MAX_CARDS"
  shows "authorized (eeprom (addCard s u)) = authorized (eeprom s) @ [u]"
proof (rule nth_equalityI)
  let ?n = "unat (readCount (eeprom s))"
  have cnt: "unat (readCount (eeprom (addCard s u))) = ?n + 1"
    using assms by (simp add: eeprom_addCard_free readCount_writeCount unat_byte_plus_one)
  show "length (authorized (eeprom (addCard s u))) = length (authorized (eeprom s) @ [u])"
    by (simp add: length_authorized cnt)
  fix j assume "j < length (authorized (eeprom (addCard s u)))"
  then have j: "j < ?n + 1" by (simp add: length_authorized cnt)
  have "storedCard (eeprom (addCard s u)) j = (if j = ?n then u else storedCard (eeprom s) j)"
    using assms
    by (simp add: eeprom_addCard_free storedCard_writeCount storedCard_writeUIDAt cardAddr_in_range)
  then show "authorized (eeprom (addCard s u)) ! j = (authorized (eeprom s) @ [u]) ! j"
    using j by (simp add: nth_authorized cnt nth_append length_authorized)
qed

lemma take_drop_remove1:
  "k < length xs \<Longrightarrow> xs ! k = u \<Longrightarrow> u \<notin> set (take k xs) \<Longrightarrow>
   take k xs @ drop (Suc k) xs = remove1 u xs"
proof -
  assume a: "k < length xs" "xs ! k = u" "u \<notin> set (take k xs)"
  have "xs = take k xs @ u # drop (Suc k) xs"
    using id_take_nth_drop [OF a(1)] a(2) by simp
  then have "remove1 u xs = remove1 u (take k xs @ u # drop (Suc k) xs)"
    by (rule arg_cong)
  also have "\<dots> = take k xs @ drop (Suc k) xs"
    using a(3) by (simp add: remove1_append)
  finally show ?thesis by (rule sym)
qed

lemma first_index:
  assumes "u \<in> set xs"
  shows "\<exists>k. k < length xs \<and> xs ! k = u \<and> (\<forall>j<k. xs ! j \<noteq> u)"
proof -
  from assms obtain ys zs where d: "xs = ys @ u # zs" and n: "u \<notin> set ys"
    by (meson split_list_first)
  have a: "length ys < length xs" by (simp add: d)
  have b: "xs ! length ys = u" by (simp add: d)
  have c: "xs ! j \<noteq> u" if "j < length ys" for j
  proof -
    have "xs ! j = ys ! j" using that by (simp add: d nth_append)
    moreover have "ys ! j \<in> set ys" using that by simp
    ultimately show ?thesis using n by metis
  qed
  show ?thesis using a b c by blast
qed

lemma eeprom_toggleAuthorizedCard_present:
  assumes "u \<in> set (authorized (eeprom s))"
  shows "\<exists>k. k < unat (readCount (eeprom s)) \<and> storedCard (eeprom s) k = u \<and>
             (\<forall>j<k. storedCard (eeprom s) j \<noteq> u) \<and>
             toggleAuthorizedCard s u =
               playAudio (s\<lparr>eeprom := removeCardAtIndex (eeprom s) (of_nat k)\<rparr>) AUDIO_BEEP_FAIL"
proof -
  obtain k where k: "k < length (authorized (eeprom s))" "authorized (eeprom s) ! k = u"
      "\<forall>j<k. authorized (eeprom s) ! j \<noteq> u"
    using first_index [OF assms] by blast
  have kn: "k < unat (readCount (eeprom s))" using k(1) by (simp add: length_authorized)
  have hit: "storedCard (eeprom s) k = u" using k(2) kn by (simp add: nth_authorized)
  have miss: "\<forall>j<k. storedCard (eeprom s) j \<noteq> u"
    using k(3) kn by (auto simp: nth_authorized)
  have "toggleAuthorizedCard s u =
        playAudio (s\<lparr>eeprom := removeCardAtIndex (eeprom s) (of_nat k)\<rparr>) AUDIO_BEEP_FAIL"
    unfolding toggleAuthorizedCard_def
    using kn hit miss by (intro toggle_from_found) auto
  then show ?thesis using kn hit miss by blast
qed

lemma toggleAuthorizedCard_absent:
  "u \<notin> set (authorized (eeprom s)) \<Longrightarrow> toggleAuthorizedCard s u = addCard s u"
  unfolding toggleAuthorizedCard_def
  by (rule toggle_from_absent) (auto simp: authorized_def)

lemma authorized_toggleAuthorizedCard:
  assumes "unat (readCount (eeprom s)) \<le> MAX_CARDS"
  shows "authorized (eeprom (toggleAuthorizedCard s u)) =
     (if u \<in> set (authorized (eeprom s)) then remove1 u (authorized (eeprom s))
      else if unat (readCount (eeprom s)) < MAX_CARDS then authorized (eeprom s) @ [u]
      else authorized (eeprom s))"
proof (cases "u \<in> set (authorized (eeprom s))")
  case False
  then show ?thesis
    using assms
    by (auto simp: toggleAuthorizedCard_absent authorized_addCard_free addCard_full)
next
  case True
  let ?e = "eeprom s"
  obtain k where k: "k < unat (readCount ?e)" "storedCard ?e k = u"
      "\<forall>j<k. storedCard ?e j \<noteq> u"
      "toggleAuthorizedCard s u =
         playAudio (s\<lparr>eeprom := removeCardAtIndex ?e (of_nat k)\<rparr>) AUDIO_BEEP_FAIL"
    using eeprom_toggleAuthorizedCard_present [OF True] by blast
  have uk: "unat (of_nat k :: byte) = k"
    using k(1) assms by (simp add: unat_of_nat MAX_CARDS_def)
  have lt: "(of_nat k :: byte) < readCount ?e"
    using k(1) uk by (simp add: word_less_nat_alt)
  have notin: "u \<notin> set (take k (authorized ?e))"
    using k(1,3) by (auto simp: in_set_conv_nth nth_authorized length_authorized)
  have "authorized (eeprom (toggleAuthorizedCard s u)) =
        take k (authorized ?e) @ drop (Suc k) (authorized ?e)"
    using authorized_removeCardAtIndex [OF lt assms]
    by (simp add: k(4) eeprom_playAudio uk)
  also have "\<dots> = remove1 u (authorized ?e)"
    using k(1,2) notin by (intro take_drop_remove1) (simp_all add: length_authorized nth_authorized)
  finally show ?thesis using True by simp
qed

subsection \<open>The example store\<close>

lemma example_count: "readCount example_store = 2"
  by (simp add: readCount_def EEPROM_read_def EEPROM_SIZE_def example_store_def)

lemma example_authorized:
  "authorized example_store = [(0x11, 0x22, 0x33, 0x44), (0x55, 0x66, 0x77, 0x88)]"
proof -
  have "[0..<2] = [0, Suc 0]" by (simp add: numeral_2_eq_2)
  then have "authorized example_store = [storedCard example_store 0, storedCard example_store 1]"
    by (simp add: authorized_def example_count)
  then show ?thesis
    by (simp add: storedCard_def readUIDAt_def cardAddr_def EEPROM_read_def EEPROM_SIZE_def
        example_store_def)
qed

subsection \<open>Removing a card\<close>

text \<open>
  C10. For every EEPROM content and every index that is not below the stored count,
  \<open>removeCardAtIndex\<close> returns the EEPROM as it was: the count, the master card and
  every slot are unchanged.
\<close>

theorem removeCardAtIndex_out_of_range:
  "readCount e \<le> idx \<Longrightarrow> removeCardAtIndex e idx = e"
  by (simp add: removeCardAtIndex_def)

theorem removeCardAtIndex_out_of_range_witness:
  "readCount example_store \<le> 2 \<and> removeCardAtIndex example_store 2 = example_store"
  using removeCardAtIndex_out_of_range [of example_store 2] by (simp add: example_count)

text \<open>
  C3. For a store of \<open>n \<le> MAX_CARDS\<close> cards and an index \<open>i < n\<close>,
  \<open>removeCardAtIndex\<close> deletes the \<open>i\<close>-th authorized card and keeps the others in
  their order: the slots below \<open>i\<close> are unchanged, every slot \<open>j\<close> from \<open>i\<close> to
  \<open>n - 2\<close> holds what slot \<open>j + 1\<close> held, slot \<open>n - 1\<close> holds FF:FF:FF:FF, the slots
  from \<open>n\<close> on are unchanged, the count is \<open>n - 1\<close> and the master card is unchanged.
\<close>

theorem removeCardAtIndex_shifts:
  assumes "idx < readCount e" and "unat (readCount e) \<le> MAX_CARDS"
  shows "authorized (removeCardAtIndex e idx) =
           take (unat idx) (authorized e) @ drop (unat idx + 1) (authorized e) \<and>
         (\<forall>j. storedCard (removeCardAtIndex e idx) j =
           (if j < unat idx then storedCard e j
            else if j < unat (readCount e) - 1 then storedCard e (j + 1)
            else if j = unat (readCount e) - 1 then (0xFF, 0xFF, 0xFF, 0xFF)
            else storedCard e j)) \<and>
         unat (readCount (removeCardAtIndex e idx)) = unat (readCount e) - 1 \<and>
         readMasterUID (removeCardAtIndex e idx) = readMasterUID e"
  using assms
  by (simp add: authorized_removeCardAtIndex storedCard_removeCardAtIndex
      readCount_removeCardAtIndex unat_byte_minus_one readMasterUID_removeCardAtIndex)

theorem removeCardAtIndex_shifts_witness:
  "(0::byte) < readCount example_store \<and> unat (readCount example_store) \<le> MAX_CARDS \<and>
   authorized example_store = [(0x11, 0x22, 0x33, 0x44), (0x55, 0x66, 0x77, 0x88)] \<and>
   authorized (removeCardAtIndex example_store 0) = [(0x55, 0x66, 0x77, 0x88)] \<and>
   storedCard (removeCardAtIndex example_store 0) 1 = (0xFF, 0xFF, 0xFF, 0xFF) \<and>
   unat (readCount (removeCardAtIndex example_store 0)) = 1"
proof -
  have h1: "(0::byte) < readCount example_store" by (simp add: example_count)
  have h2: "unat (readCount example_store) \<le> MAX_CARDS" by (simp add: example_count MAX_CARDS_def)
  show ?thesis
    using h1 h2 removeCardAtIndex_shifts [OF h1 h2]
    by (simp add: example_authorized example_count)
qed

subsection \<open>Adding a card\<close>

text \<open>
  C7. When the stored count equals \<open>MAX_CARDS\<close>, \<open>addCard\<close> returns the state as it
  was: the count, the master card and every slot are unchanged, and no cue is played.
\<close>

theorem addCard_at_capacity:
  "unat (readCount (eeprom s)) = MAX_CARDS \<Longrightarrow> addCard s u = s"
  by (simp add: addCard_def)

theorem addCard_at_capacity_witness:
  "unat (readCount (eeprom (example_state\<lparr>eeprom := full_store\<rparr>))) = MAX_CARDS \<and>
   addCard (example_state\<lparr>eeprom := full_store\<rparr>) (0x11, 0x22, 0x33, 0x44) =
     example_state\<lparr>eeprom := full_store\<rparr>"
proof -
  have h: "unat (readCount (eeprom (example_state\<lparr>eeprom := full_store\<rparr>))) = MAX_CARDS"
    by (simp add: readCount_def EEPROM_read_def EEPROM_SIZE_def full_store_def MAX_CARDS_def)
  show ?thesis using h addCard_at_capacity [OF h] by simp
qed

subsection \<open>Startup\<close>

lemma initEEPROM_fill_eq:
  "initEEPROM_fill e i = (\<lambda>a. if i \<le> a \<and> a < EEPROM_SIZE then 0xFF else e a)"
proof (induction e i rule: initEEPROM_fill.induct)
  case (1 e i)
  show ?case
  proof (cases "i < EEPROM_SIZE")
    case True
    have "initEEPROM_fill e i = initEEPROM_fill (EEPROM_write e i 0xFF) (i + 1)"
      using True by (subst initEEPROM_fill.simps) simp
    also have "\<dots> = (\<lambda>a. if i + 1 \<le> a \<and> a < EEPROM_SIZE then 0xFF else EEPROM_write e i 0xFF a)"
      using "1.IH" [OF True] .
    also have "\<dots> = (\<lambda>a. if i \<le> a \<and> a < EEPROM_SIZE then 0xFF else e a)"
      using True by (auto simp: fun_eq_iff EEPROM_write_def)
    finally show ?thesis .
  next
    case False
    then show ?thesis by (subst initEEPROM_fill.simps) (auto simp: fun_eq_iff)
  qed
qed

lemma initEEPROM_wipe:
  "MAX_CARDS < unat (readCount e) \<Longrightarrow>
   initEEPROM e = (\<lambda>a. if a = 4 then 0 else if a < EEPROM_SIZE then 0xFF else e a)"
  by (auto simp: initEEPROM_def readCount_def initEEPROM_fill_eq EEPROM_write_def EEPROM_SIZE_def
      fun_eq_iff)

lemma initEEPROM_keep: "unat (readCount e) \<le> MAX_CARDS \<Longrightarrow> initEEPROM e = e"
  by (simp add: initEEPROM_def readCount_def)

lemma eeprom_setup_device: "eeprom (setup_device e) = initEEPROM e"
  by (simp add: setup_device_def initDFPlayer_def sendDFCommand_def)

lemma erased_count: "readCount erased = 0xFF"
  by (simp add: readCount_def EEPROM_read_def EEPROM_SIZE_def erased_def)

text \<open>
  C8. When the stored count exceeds \<open>MAX_CARDS\<close>, \<open>initEEPROM\<close> leaves every cell
  at 0xFF but the count cell, which is 0: the master card reads FF:FF:FF:FF (unset),
  the count is 0 and the authorized list is empty. When the stored count is at most
  \<open>MAX_CARDS\<close>, \<open>initEEPROM\<close> leaves the EEPROM as it was. The EEPROM the device
  starts with after \<open>setup()\<close> is the one \<open>initEEPROM\<close> returns.
\<close>

theorem initEEPROM_policy:
  "(MAX_CARDS < unat (readCount e) \<longrightarrow>
      (\<forall>a. EEPROM_read (initEEPROM e) a =
         (if a = 4 then 0 else if a < EEPROM_SIZE then 0xFF else 0)) \<and>
      readMasterUID (initEEPROM e) = (0xFF, 0xFF, 0xFF, 0xFF) \<and>
      isUIDEmpty (readMasterUID (initEEPROM e)) \<and>
      readCount (initEEPROM e) = 0 \<and>
      authorized (initEEPROM e) = []) \<and>
   (unat (readCount e) \<le> MAX_CARDS \<longrightarrow> initEEPROM e = e) \<and>
   eeprom (setup_device e) = initEEPROM e"
proof -
  have wiped: "EEPROM_read (initEEPROM e) a =
         (if a = 4 then 0 else if a < EEPROM_SIZE then 0xFF else 0)"
    if "MAX_CARDS < unat (readCount e)" for a
    by (simp add: initEEPROM_wipe [OF that] EEPROM_read_def EEPROM_SIZE_def)
  have master: "readMasterUID (initEEPROM e) = (0xFF, 0xFF, 0xFF, 0xFF)"
    if "MAX_CARDS < unat (readCount e)"
    by (simp add: readMasterUID_def readUIDAt_def wiped [OF that] EEPROM_SIZE_def)
  have count: "readCount (initEEPROM e) = 0" if "MAX_CARDS < unat (readCount e)"
    by (simp add: readCount_def wiped [OF that])
  show ?thesis
    using wiped master count
    by (simp add: initEEPROM_keep eeprom_setup_device authorized_def)
qed

theorem initEEPROM_policy_witness:
  "MAX_CARDS < unat (readCount erased) \<and>
   readMasterUID (initEEPROM erased) = (0xFF, 0xFF, 0xFF, 0xFF) \<and>
   readCount (initEEPROM erased) = 0 \<and>
   EEPROM_read (initEEPROM erased) 5 = 0xFF \<and>
   unat (readCount example_store) \<le> MAX_CARDS \<and>
   initEEPROM example_store = example_store"
proof -
  have h1: "MAX_CARDS < unat (readCount erased)" by (simp add: erased_count MAX_CARDS_def)
  have h2: "unat (readCount example_store) \<le> MAX_CARDS" by (simp add: example_count MAX_CARDS_def)
  show ?thesis
    using h1 h2 initEEPROM_policy [of erased] initEEPROM_policy [of example_store]
    by (simp add: EEPROM_SIZE_def)
qed

subsection \<open>Empty identifiers\<close>

text \<open>
  C5, as the sketch has it. \<open>isUIDEmpty\<close> tests each byte on its own: an identifier
  is treated as unset exactly when every one of its four bytes is 0x00 or 0xFF. These
  are sixteen patterns: the two uniform ones and the fourteen mixtures.
\<close>

theorem isUIDEmpty_bytewise:
  "isUIDEmpty (u0, u1, u2, u3) \<longleftrightarrow>
     (u0 = 0x00 \<or> u0 = 0xFF) \<and> (u1 = 0x00 \<or> u1 = 0xFF) \<and>
     (u2 = 0x00 \<or> u2 = 0xFF) \<and> (u3 = 0x00 \<or> u3 = 0xFF)"
  by auto

text \<open>
  The mixture 00:FF:00:FF is neither of the two uniform patterns, and \<open>isUIDEmpty\<close>
  treats it as unset.
\<close>

theorem isUIDEmpty_mixture_counterexample:
  "isUIDEmpty (0x00, 0xFF, 0x00, 0xFF) \<and>
   (0x00, 0xFF, 0x00, 0xFF) \<noteq> ((0x00, 0x00, 0x00, 0x00) :: uid) \<and>
   (0x00, 0xFF, 0x00, 0xFF) \<noteq> ((0xFF, 0xFF, 0xFF, 0xFF) :: uid)"
  by simp

subsection \<open>The master card\<close>

lemma readMasterUID_writeMasterUID: "readMasterUID (writeMasterUID e u) = u"
  by (simp add: readMasterUID_def writeMasterUID_def readUIDAt_writeUIDAt_same EEPROM_SIZE_def)

lemma readMasterUID_addCard: "readMasterUID (eeprom (addCard s u)) = readMasterUID (eeprom s)"
  by (simp add: addCard_def Let_def eeprom_playAudio readMasterUID_writeCount
      readMasterUID_writeUIDAt_card)

lemma readMasterUID_toggleAuthorizedCard:
  "readMasterUID (eeprom (toggleAuthorizedCard s u)) = readMasterUID (eeprom s)"
proof (cases "u \<in> set (authorized (eeprom s))")
  case True
  then obtain k where "toggleAuthorizedCard s u =
      playAudio (s\<lparr>eeprom := removeCardAtIndex (eeprom s) (of_nat k)\<rparr>) AUDIO_BEEP_FAIL"
    using eeprom_toggleAuthorizedCard_present by blast
  then show ?thesis by (simp add: eeprom_playAudio readMasterUID_removeCardAtIndex)
next
  case False
  then show ?thesis by (simp add: toggleAuthorizedCard_absent readMasterUID_addCard)
qed

lemma eeprom_activateRelay: "eeprom (activateRelay s) = eeprom s"
  by (simp add: activateRelay_def)

lemma eeprom_handleMasterScan: "eeprom (handleMasterScan s t) = eeprom s"
  by (simp add: handleMasterScan_def eeprom_playAudio)

lemma eeprom_loop:
  "eeprom (loop s scan millis) =
     (case scan of
        None \<Rightarrow> eeprom s
      | Some u \<Rightarrow>
          if isUIDEmpty (readMasterUID (eeprom s)) then writeMasterUID (eeprom s) u
          else if u = readMasterUID (eeprom s) then eeprom s
          else if regMode s then eeprom (toggleAuthorizedCard s u)
          else eeprom s)"
  by (simp add: loop_def Let_def eeprom_playAudio eeprom_activateRelay eeprom_handleMasterScan
      compareUID_eq split: option.split)

lemma example_master: "readMasterUID example_store = (0xAA, 0xBB, 0xCC, 0xDD)"
  by (simp add: readMasterUID_def readUIDAt_def EEPROM_read_def EEPROM_SIZE_def example_store_def)

text \<open>
  \<open>writeMasterUID\<close> has no test of the stored master card: on the example store,
  whose master card is AA:BB:CC:DD, it replaces the master card by 11:22:33:44.
\<close>

theorem writeMasterUID_overwrites_counterexample:
  "\<not> isUIDEmpty (readMasterUID example_store) \<and>
   readMasterUID (writeMasterUID example_store (0x11, 0x22, 0x33, 0x44)) \<noteq>
     readMasterUID example_store"
  by (simp add: readMasterUID_writeMasterUID example_master)

text \<open>
  C2, as the sketch has it. \<open>writeMasterUID\<close> always stores the identifier it is
  given. The test is in its only caller: \<open>loop\<close> calls it only when the stored
  master card is unset, so a pass of \<open>loop\<close> on a state whose master card is set
  leaves the stored master card as it was, whatever is scanned.
\<close>

theorem master_kept_by_scan:
  "readMasterUID (writeMasterUID e u) = u \<and>
   (\<not> isUIDEmpty (readMasterUID (eeprom s)) \<longrightarrow>
      readMasterUID (eeprom (loop s scan millis)) = readMasterUID (eeprom s))"
  by (simp add: readMasterUID_writeMasterUID eeprom_loop readMasterUID_toggleAuthorizedCard
      split: option.split)

theorem master_kept_by_scan_witness:
  "\<not> isUIDEmpty (readMasterUID (eeprom example_state)) \<and>
   readMasterUID (eeprom (loop example_state (Some (0x11, 0x22, 0x33, 0x44)) 5)) =
     (0xAA, 0xBB, 0xCC, 0xDD)"
proof -
  have h: "\<not> isUIDEmpty (readMasterUID (eeprom example_state))"
    by (simp add: example_state_def example_master)
  show ?thesis
    using h master_kept_by_scan [of example_store "(0, 0, 0, 0)" example_state
        "Some (0x11, 0x22, 0x33, 0x44)" 5]
    by (simp add: example_state_def example_master)
qed

subsection \<open>Toggling a card\<close>

lemma count_toggleAuthorizedCard:
  assumes "unat (readCount (eeprom s)) \<le> MAX_CARDS"
  shows "unat (readCount (eeprom (toggleAuthorizedCard s u))) \<le> MAX_CARDS"
proof -
  have "length (authorized (eeprom (toggleAuthorizedCard s u))) \<le> MAX_CARDS"
    using assms
    by (auto simp: authorized_toggleAuthorizedCard [OF assms] length_remove1 length_authorized)
  then show ?thesis by (simp add: length_authorized)
qed

text \<open>
  C4. On a store with at most \<open>MAX_CARDS\<close> cards and no card stored twice,
  \<open>toggleAuthorizedCard\<close> applied twice with the same identifier gives a store with the
  membership it had before: the same set of authorized cards, and \<open>isAuthorized\<close>
  answers the same for every identifier. (A present card is removed and then appended
  at the end; an absent card is appended and removed again, or, in a full store, not
  added at all.)
\<close>

theorem toggle_twice_membership:
  assumes "unat (readCount (eeprom s)) \<le> MAX_CARDS" and "distinct (authorized (eeprom s))"
  shows "set (authorized (eeprom (toggleAuthorizedCard (toggleAuthorizedCard s u) u))) =
           set (authorized (eeprom s)) \<and>
         (\<forall>v. isAuthorized (eeprom (toggleAuthorizedCard (toggleAuthorizedCard s u) u)) v =
               isAuthorized (eeprom s) v)"
proof -
  let ?xs = "authorized (eeprom s)"
  let ?s1 = "toggleAuthorizedCard s u"
  let ?xs1 = "authorized (eeprom ?s1)"
  let ?xs2 = "authorized (eeprom (toggleAuthorizedCard ?s1 u))"
  have len: "length ?xs \<le> MAX_CARDS" using assms(1) by (simp add: length_authorized)
  have c1: "unat (readCount (eeprom ?s1)) \<le> MAX_CARDS"
    using assms(1) by (rule count_toggleAuthorizedCard)
  have xs1: "?xs1 = (if u \<in> set ?xs then remove1 u ?xs
                     else if length ?xs < MAX_CARDS then ?xs @ [u] else ?xs)"
    by (simp add: authorized_toggleAuthorizedCard [OF assms(1)] length_authorized)
  have xs2: "?xs2 = (if u \<in> set ?xs1 then remove1 u ?xs1
                     else if length ?xs1 < MAX_CARDS then ?xs1 @ [u] else ?xs1)"
    by (simp add: authorized_toggleAuthorizedCard [OF c1] length_authorized)
  have "set ?xs2 = set ?xs"
  proof (cases "u \<in> set ?xs")
    case True
    then have a: "?xs1 = remove1 u ?xs" by (simp add: xs1)
    have b: "u \<notin> set ?xs1" using assms(2) by (simp add: a)
    have "0 < length ?xs" using True by (rule length_pos_if_in_set)
    moreover have "length ?xs1 = length ?xs - 1" using True by (simp add: a length_remove1)
    ultimately have "length ?xs1 < MAX_CARDS" using len by arith
    then have "?xs2 = remove1 u ?xs @ [u]" using b by (simp add: xs2 a)
    then show ?thesis using True assms(2) by (auto simp: set_remove1_eq)
  next
    case False
    show ?thesis
    proof (cases "length ?xs < MAX_CARDS")
      case True
      then have a: "?xs1 = ?xs @ [u]" using False by (simp add: xs1)
      have "?xs2 = remove1 u (?xs @ [u])" by (simp add: xs2 a)
      then show ?thesis using False by (simp add: remove1_append)
    next
      case full: False
      then have a: "?xs1 = ?xs" using False by (simp add: xs1)
      have "?xs2 = ?xs" unfolding xs2 using False full by (simp add: a)
      then show ?thesis by simp
    qed
  qed
  then show ?thesis by (simp add: isAuthorized_iff)
qed

theorem toggle_twice_membership_witness:
  "unat (readCount (eeprom example_state)) \<le> MAX_CARDS \<and>
   distinct (authorized (eeprom example_state)) \<and>
   set (authorized (eeprom (toggleAuthorizedCard
         (toggleAuthorizedCard example_state (0x11, 0x22, 0x33, 0x44)) (0x11, 0x22, 0x33, 0x44)))) =
     {(0x11, 0x22, 0x33, 0x44), (0x55, 0x66, 0x77, 0x88)}"
proof -
  have h1: "unat (readCount (eeprom example_state)) \<le> MAX_CARDS"
    by (simp add: example_state_def example_count MAX_CARDS_def)
  have h2: "distinct (authorized (eeprom example_state))"
    by (simp add: example_state_def example_authorized)
  show ?thesis
    using h1 h2 toggle_twice_membership [OF h1 h2, of "(0x11, 0x22, 0x33, 0x44)"]
    by (simp add: example_state_def example_authorized)
qed

subsection \<open>The conditions of the store over the life of the device\<close>

lemma store_ok_list:
  "store_ok e \<longleftrightarrow>
     distinct (authorized e) \<and> length (authorized e) \<le> MAX_CARDS \<and>
     readMasterUID e \<notin> set (authorized e)"
  by (simp add: store_ok_def isAuthorized_iff length_authorized)

lemma readCount_writeMasterUID: "readCount (writeMasterUID e u) = readCount e"
  by (cases u) (simp add: readCount_def writeMasterUID_def writeUIDAt.simps EEPROM_read_write)

lemma eeprom_handleClient: "eeprom (handleClient s uri) = eeprom s"
  by (simp add: handleClient_def handleNotFound_def handleRoot_def handleCommand_def
      handleReboot_def send_def Let_def eeprom_playAudio eeprom_activateRelay
      split: option.split handler.split)

lemma authorized_count_0: "readCount e = 0 \<Longrightarrow> authorized e = []"
  by (simp add: authorized_def)

lemma step_keeps_unset_empty:
  assumes "isUIDEmpty (readMasterUID (eeprom s)) \<longrightarrow> readCount (eeprom s) = 0"
  shows "isUIDEmpty (readMasterUID (eeprom (step s ev))) \<longrightarrow> readCount (eeprom (step s ev)) = 0"
proof (cases ev)
  case (Poll scan millis)
  show ?thesis
    using assms
    by (auto simp: Poll eeprom_loop readCount_writeMasterUID readMasterUID_toggleAuthorizedCard
        split: option.split)
next
  case (Request uri)
  then show ?thesis using assms by (simp add: eeprom_handleClient)
next
  case Boot
  show ?thesis
  proof (cases "MAX_CARDS < unat (readCount (eeprom s))")
    case True
    then have "readCount (initEEPROM (eeprom s)) = 0"
      by (simp add: initEEPROM_wipe readCount_def EEPROM_read_def EEPROM_SIZE_def)
    then show ?thesis by (simp add: Boot eeprom_setup_device)
  next
    case False
    then show ?thesis using assms by (simp add: Boot eeprom_setup_device initEEPROM_keep)
  qed
qed

lemma loop_keeps_store_ok:
  assumes ok: "store_ok (eeprom s)"
    and ue: "isUIDEmpty (readMasterUID (eeprom s)) \<longrightarrow> readCount (eeprom s) = 0"
  shows "store_ok (eeprom (loop s scan millis))"
proof (cases scan)
  case None
  then show ?thesis using ok by (simp add: eeprom_loop)
next
  case (Some u)
  let ?e = "eeprom s"
  show ?thesis
  proof (cases "isUIDEmpty (readMasterUID ?e)")
    case True
    then have "readCount (writeMasterUID ?e u) = 0"
      using ue by (simp add: readCount_writeMasterUID)
    then have "authorized (writeMasterUID ?e u) = []" by (rule authorized_count_0)
    then show ?thesis using True by (simp add: Some eeprom_loop store_ok_list MAX_CARDS_def)
  next
    case set: False
    show ?thesis
    proof (cases "u \<noteq> readMasterUID ?e \<and> regMode s")
      case False
      then show ?thesis using ok set by (auto simp: Some eeprom_loop)
    next
      case True
      have cnt: "unat (readCount ?e) \<le> MAX_CARDS" using ok by (simp add: store_ok_def)
      have ds: "distinct (authorized ?e)" using ok by (simp add: store_ok_def)
      have m: "readMasterUID ?e \<notin> set (authorized ?e)" using ok by (simp add: store_ok_list)
      have e': "eeprom (loop s scan millis) = eeprom (toggleAuthorizedCard s u)"
        using True set by (simp add: Some eeprom_loop)
      let ?xs' = "authorized (eeprom (toggleAuthorizedCard s u))"
      have xs': "?xs' =
          (if u \<in> set (authorized ?e) then remove1 u (authorized ?e)
           else if unat (readCount ?e) < MAX_CARDS then authorized ?e @ [u]
           else authorized ?e)"
        by (rule authorized_toggleAuthorizedCard [OF cnt])
      have len': "length ?xs' \<le> MAX_CARDS"
        using count_toggleAuthorizedCard [OF cnt, of u] by (simp add: length_authorized)
      have ds': "distinct ?xs'" using ds by (simp add: xs')
      have m': "readMasterUID ?e \<notin> set ?xs'"
        using m True by (auto simp: xs' dest: notin_set_remove1)
      have "store_ok (eeprom (toggleAuthorizedCard s u))"
        unfolding store_ok_list readMasterUID_toggleAuthorizedCard
        using len' ds' m' by simp
      then show ?thesis by (simp add: e')
    qed
  qed
qed

lemma step_keeps_store_ok:
  assumes ok: "store_ok (eeprom s)"
    and ue: "isUIDEmpty (readMasterUID (eeprom s)) \<longrightarrow> readCount (eeprom s) = 0"
  shows "store_ok (eeprom (step s ev))"
proof (cases ev)
  case (Poll scan millis)
  then show ?thesis using loop_keeps_store_ok [OF ok ue] by simp
next
  case (Request uri)
  then show ?thesis using ok by (simp add: eeprom_handleClient)
next
  case Boot
  have "unat (readCount (eeprom s)) \<le> MAX_CARDS" using ok by (simp add: store_ok_def)
  then show ?thesis using ok by (simp add: Boot eeprom_setup_device initEEPROM_keep)
qed

lemma run_keeps_unset_empty:
  "isUIDEmpty (readMasterUID (eeprom s)) \<longrightarrow> readCount (eeprom s) = 0 \<Longrightarrow>
   isUIDEmpty (readMasterUID (eeprom (run s evs))) \<longrightarrow> readCount (eeprom (run s evs)) = 0"
proof (induction evs arbitrary: s)
  case Nil
  then show ?case by simp
next
  case (Cons ev evs)
  show ?case
    using Cons.IH [OF step_keeps_unset_empty [OF Cons.prems]] by simp
qed

lemma run_keeps_store_ok:
  "store_ok (eeprom s) \<Longrightarrow>
   isUIDEmpty (readMasterUID (eeprom s)) \<longrightarrow> readCount (eeprom s) = 0 \<Longrightarrow>
   store_ok (eeprom (run s evs))"
proof (induction evs arbitrary: s)
  case Nil
  then show ?case by simp
next
  case (Cons ev evs)
  show ?case
    using Cons.IH [OF step_keeps_store_ok [OF Cons.prems] step_keeps_unset_empty [OF Cons.prems(2)]]
    by simp
qed

lemma store_empty_ok: "store_empty e \<Longrightarrow> store_ok e"
  by (simp add: store_empty_def store_ok_list authorized_count_0)

lemma reachable_store_ok:
  assumes "store_empty (initEEPROM e0)"
  shows "store_ok (eeprom (run (setup_device e0) evs))"
  using assms
  by (intro run_keeps_store_ok) (simp_all add: eeprom_setup_device store_empty_ok store_empty_def)

lemma initEEPROM_erased: "initEEPROM erased = erased(4 := 0)"
proof -
  have "MAX_CARDS < unat (readCount erased)" by (simp add: erased_count MAX_CARDS_def)
  then have "initEEPROM erased = (\<lambda>a. if a = 4 then 0 else if a < EEPROM_SIZE then 0xFF else erased a)"
    by (rule initEEPROM_wipe)
  then show ?thesis by (auto simp: fun_eq_iff erased_def)
qed

text \<open>
  C6. Take a device that starts on an empty store (an EEPROM that \<open>initEEPROM\<close> wipes,
  or one that already holds no master card and no authorized card) and let any
  sequence of scans, web requests and restarts happen. If the store then satisfies the
  three conditions (no card stored twice, at most \<open>MAX_CARDS\<close> cards, master card not
  authorized), it still satisfies them after one more pass of \<open>loop\<close>, whatever is
  scanned. By \<open>reachable_store_ok\<close> every such state does satisfy them.
\<close>

theorem scan_keeps_store_ok:
  assumes "store_empty (initEEPROM e0)"
    and "store_ok (eeprom (run (setup_device e0) evs))"
  shows "store_ok (eeprom (loop (run (setup_device e0) evs) scan millis))"
proof -
  have "isUIDEmpty (readMasterUID (eeprom (setup_device e0))) \<longrightarrow>
        readCount (eeprom (setup_device e0)) = 0"
    using assms(1) by (simp add: eeprom_setup_device store_empty_def)
  then have "isUIDEmpty (readMasterUID (eeprom (run (setup_device e0) evs))) \<longrightarrow>
        readCount (eeprom (run (setup_device e0) evs)) = 0"
    by (rule run_keeps_unset_empty)
  with assms(2) show ?thesis by (rule loop_keeps_store_ok)
qed

theorem scan_keeps_store_ok_witness:
  "store_empty (initEEPROM erased) \<and>
   store_ok (eeprom (run (setup_device erased)
      [Poll (Some (0xAA, 0xBB, 0xCC, 0xDD)) 0, Poll (Some (0xAA, 0xBB, 0xCC, 0xDD)) 100,
       Poll (Some (0x11, 0x22, 0x33, 0x44)) 200])) \<and>
   store_ok (eeprom (loop (run (setup_device erased)
      [Poll (Some (0xAA, 0xBB, 0xCC, 0xDD)) 0, Poll (Some (0xAA, 0xBB, 0xCC, 0xDD)) 100,
       Poll (Some (0x11, 0x22, 0x33, 0x44)) 200]) (Some (0x55, 0x66, 0x77, 0x88)) 300))"
proof -
  have h1: "store_empty (initEEPROM erased)"
    unfolding initEEPROM_erased
    by (simp add: store_empty_def readMasterUID_def readUIDAt_def readCount_def
        EEPROM_read_def EEPROM_SIZE_def erased_def)
  have h2: "store_ok (eeprom (run (setup_device erased)
      [Poll (Some (0xAA, 0xBB, 0xCC, 0xDD)) 0, Poll (Some (0xAA, 0xBB, 0xCC, 0xDD)) 100,
       Poll (Some (0x11, 0x22, 0x33, 0x44)) 200]))"
    using h1 by (rule reachable_store_ok)
  show ?thesis using h1 h2 scan_keeps_store_ok [OF h1 h2] by simp
qed

subsection \<open>Web commands\<close>

lemma map_of_routes_unknown:
  assumes "name \<notin> set command_vocabulary" and "name \<noteq> ''reboot''" and "name \<noteq> ''''"
  shows "map_of routes (''/'' @ name) = None"
  using assms
  by (simp add: routes_def command_vocabulary_def relay_only_commands_def)

lemma relay_only_route:
  assumes "name \<in> set relay_only_commands"
  shows "\<exists>label. map_of routes (''/'' @ name) = Some (Command label 0 True)"
proof -
  from assms consider "name = ''admin1_relay''" | "name = ''admin2_relay''"
    | "name = ''admin3_relay''" | "name = ''admin4_relay''" | "name = ''admin5_relay''"
    | "name = ''admin6_relay''" | "name = ''boss_relay''"
    unfolding relay_only_commands_def by fastforce
  then show ?thesis by cases (simp_all add: routes_def)
qed

lemma handleCommand_relay_only:
  "handleCommand s label 0 True =
     s\<lparr>outputs := outputs s @ [DFCommand 0x03 0 0, RelayPulse, Send 200 (Plain ''OK'')]\<rparr>"
  by (simp add: handleCommand_def playAudio_def sendDFCommand_def activateRelay_def send_def)

lemma handleClient_relay_only:
  assumes "name \<in> set relay_only_commands"
  shows "handleClient s (''/'' @ name) =
     s\<lparr>outputs := outputs s @ [DFCommand 0x03 0 0, RelayPulse, Send 200 (Plain ''OK'')]\<rparr>"
proof -
  obtain label where "map_of routes (''/'' @ name) = Some (Command label 0 True)"
    using relay_only_route [OF assms] by blast
  then show ?thesis by (simp add: handleClient_def handleCommand_relay_only)
qed

text \<open>
  The request \<open>/reboot\<close> is not a command of the vocabulary, and it is not answered
  with "Not Found": the sketch registers a route for it, which answers
  "Rebooting..." and restarts the device.
\<close>

theorem dispatch_reboot_counterexample:
  "''reboot'' \<notin> set command_vocabulary \<and>
   handleClient example_state ''/reboot'' \<noteq> handleNotFound example_state \<and>
   outputs (handleClient example_state ''/reboot'') =
     [Send 200 (Plain ''Rebooting...''), Restart]"
  by (simp add: command_vocabulary_def relay_only_commands_def handleClient_def routes_def
      handleReboot_def handleNotFound_def send_def example_state_def)

text \<open>
  C9, as the sketch has it. Each relay-only command sends the player the file number
  0, which is none of the audio cues, pulses the relay once and answers "OK". Every
  name outside the vocabulary, other than \<open>reboot\<close> and the empty name (the dashboard
  page \<open>/\<close>), is answered with 404 "Not Found", with nothing sent to the player and
  no relay pulse. The two remaining routes send nothing to the player and do not
  pulse the relay either.
\<close>

theorem dispatch_relay_only_and_unknown:
  "(\<forall>name \<in> set relay_only_commands.
      handleClient s (''/'' @ name) =
        s\<lparr>outputs := outputs s @ [DFCommand 0x03 0 0, RelayPulse, Send 200 (Plain ''OK'')]\<rparr>) \<and>
   0 \<notin> set audio_cues \<and>
   (\<forall>name. name \<notin> set command_vocabulary \<and> name \<noteq> ''reboot'' \<and> name \<noteq> '''' \<longrightarrow>
      handleClient s (''/'' @ name) =
        s\<lparr>outputs := outputs s @ [Send 404 (Plain ''Not Found'')]\<rparr>) \<and>
   handleClient s ''/reboot'' =
     s\<lparr>outputs := outputs s @ [Send 200 (Plain ''Rebooting...''), Restart]\<rparr> \<and>
   handleClient s ''/'' = s\<lparr>outputs := outputs s @ [Send 200 IndexPage]\<rparr>"
proof -
  have cues: "0 \<notin> set audio_cues"
    by (simp add: audio_cues_def AUDIO_BEEP_FAIL_def AUDIO_CUSTOMER_def AUDIO_ADMIN_1_def
        AUDIO_ADMIN_2_def AUDIO_ADMIN_3_def AUDIO_ADMIN_4_def AUDIO_ADMIN_5_def AUDIO_ADMIN_6_def
        AUDIO_BEEP_OK_def AUDIO_BOSS_def AUDIO_ATTENDANCE_def AUDIO_FAILURE_def
        AUDIO_ADMIN_1_CLOCKIN_def AUDIO_ADMIN_2_CLOCKIN_def AUDIO_ADMIN_3_CLOCKIN_def
        AUDIO_ADMIN_4_CLOCKIN_def AUDIO_MASTER_def AUDIO_REGISTER_def AUDIO_ADMIN_1_CLOCKOUT_def
        AUDIO_ADMIN_2_CLOCKOUT_def AUDIO_ADMIN_3_CLOCKOUT_def AUDIO_ADMIN_4_CLOCKOUT_def)
  have unknown: "handleClient s (''/'' @ name) =
        s\<lparr>outputs := outputs s @ [Send 404 (Plain ''Not Found'')]\<rparr>"
    if "name \<notin> set command_vocabulary" "name \<noteq> ''reboot''" "name \<noteq> ''''" for name
    using map_of_routes_unknown [OF that]
    by (simp add: handleClient_def handleNotFound_def send_def)
  have reboot: "handleClient s ''/reboot'' =
     s\<lparr>outputs := outputs s @ [Send 200 (Plain ''Rebooting...''), Restart]\<rparr>"
    by (simp add: handleClient_def routes_def handleReboot_def send_def)
  have root: "handleClient s ''/'' = s\<lparr>outputs := outputs s @ [Send 200 IndexPage]\<rparr>"
    by (simp add: handleClient_def routes_def handleRoot_def send_def)
  show ?thesis
    using cues unknown reboot root handleClient_relay_only by blast
qed

theorem dispatch_relay_only_and_unknown_witness:
  "''admin3_relay'' \<in> set relay_only_commands \<and>
   outputs (handleClient example_state ''/admin3_relay'') =
     [DFCommand 0x03 0 0, RelayPulse, Send 200 (Plain ''OK'')] \<and>
   ''zzz'' \<notin> set command_vocabulary \<and>
   outputs (handleClient example_state ''/zzz'') = [Send 404 (Plain ''Not Found'')]"
proof -
  have h1: "''admin3_relay'' \<in> set relay_only_commands"
    by (simp add: relay_only_commands_def)
  have h2: "''zzz'' \<notin> set command_vocabulary \<and> ''zzz'' \<noteq> ''reboot'' \<and> ''zzz'' \<noteq> ''''"
    by (simp add: command_vocabulary_def relay_only_commands_def)
  have "handleClient example_state (''/'' @ ''admin3_relay'') =
          example_state\<lparr>outputs := outputs example_state @
            [DFCommand 0x03 0 0, RelayPulse, Send 200 (Plain ''OK'')]\<rparr>"
    using dispatch_relay_only_and_unknown [of example_state] h1 by blast
  moreover have "handleClient example_state (''/'' @ ''zzz'') =
          example_state\<lparr>outputs := outputs example_state @ [Send 404 (Plain ''Not Found'')]\<rparr>"
    using dispatch_relay_only_and_unknown [of example_state] h2 by blast
  ultimately show ?thesis using h1 h2 by (simp add: example_state_def)
qed

subsection \<open>The registration timeout\<close>

text \<open>
  With the master card set and registration mode on, a scan of another card is
  toggled whatever the clock says: \<open>loop\<close> tests \<open>regMode\<close> before it looks at the
  timeout, which it does at the end of the pass.
\<close>

lemma registration_scan_ignores_clock:
  "\<not> isUIDEmpty (readMasterUID (eeprom s)) \<Longrightarrow> u \<noteq> readMasterUID (eeprom s) \<Longrightarrow> regMode s \<Longrightarrow>
   eeprom (loop s (Some u) millis) = eeprom (toggleAuthorizedCard s u)"
  by (simp add: eeprom_loop)

text \<open>
  C1 does not hold of the sketch. Registration mode is armed at 1000 ms on the example
  store, and the authorized card 11:22:33:44 is scanned at 16001 ms, 15001 ms later.
  The scan is not an access check: the card is removed from the store, the failure
  beep is played, the relay is not pulsed, and only then is registration mode left.
\<close>

theorem late_scan_still_toggles:
  "regMode armed_state \<and> regModeStarted armed_state = 1000 \<and>
   16001 - regModeStarted armed_state > REG_MODE_TIMEOUT_MS \<and>
   readMasterUID (eeprom armed_state) = (0xAA, 0xBB, 0xCC, 0xDD) \<and>
   isAuthorized (eeprom armed_state) (0x11, 0x22, 0x33, 0x44) \<and>
   authorized (eeprom (loop armed_state (Some (0x11, 0x22, 0x33, 0x44)) 16001)) =
     [(0x55, 0x66, 0x77, 0x88)] \<and>
   \<not> isAuthorized (eeprom (loop armed_state (Some (0x11, 0x22, 0x33, 0x44)) 16001))
       (0x11, 0x22, 0x33, 0x44) \<and>
   outputs (loop armed_state (Some (0x11, 0x22, 0x33, 0x44)) 16001) =
     outputs armed_state @ [DFCommand 0x03 0 1] \<and>
   \<not> regMode (loop armed_state (Some (0x11, 0x22, 0x33, 0x44)) 16001)"
  by code_simp

end
